theory Spec2Isabelle
  imports Main "HOL-Library.Word"
begin

unbundle bit_operations_syntax

section \<open>The tail session of pkg/promtail/targets/tailer.go\<close>

text \<open>
  One session tails one log file. It owns a handle of the line source, runs an event loop
  (\<open>run\<close>) in a goroutine of its own, and is stopped from outside by \<open>stop\<close>.
  The file system, the line source (github.com/hpcloud/tail), the downstream handler and
  the clock belong to the environment: what they answer is an input of the model.
  The checkpoint store, the metrics and the log are shared state, threaded through.
\<close>

subsection \<open>Data\<close>

type_synonym path = string

text \<open>A Go \<open>time.Time\<close>; the session only passes it on.\<close>
type_synonym time = int

text \<open>A Go \<open>error\<close> value; the session only tests it against nil and passes it on.\<close>
datatype error = GoError string

text \<open>
  \<open>os.FileInfo\<close>, as far as the session reads it: \<open>Mode()\<close>, a 32-bit \<open>os.FileMode\<close>,
  and \<open>Size()\<close>, an int64 the session never computes with.
\<close>
record file_info =
  Mode :: "32 word"
  Size :: int

text \<open>\<open>os.ModeSymlink\<close>, the fifth mode bit from the top of the Go standard library.\<close>
definition ModeSymlink :: "32 word" where
  "ModeSymlink = push_bit 27 1"

text \<open>\<open>tail.SeekInfo\<close>, \<open>tail.Config\<close> and the handle \<open>*tail.Tail\<close>, which keeps the file name
  and the configuration it was opened with.\<close>
record seek_info =
  Offset :: int
  Whence :: int

record tail_config =
  Follow :: bool
  ReOpen :: bool
  Location :: seek_info

record tail =
  Filename :: path
  Config :: tail_config

text \<open>\<open>*tail.Line\<close>: the text without its newline, the time it was read, a read error or nil.\<close>
record line =
  Text :: string
  Time :: time
  Err :: "error option"

text \<open>A \<open>model.LabelSet\<close>; \<open>model.LabelSet{}\<close> is the empty map.\<close>
type_synonym label_set = "string \<rightharpoonup> string"

text \<open>
  An \<open>api.EntryHandler\<close>: \<open>Handle(labels, time, entry)\<close>. The model keeps of a handler the
  call that reaches the downstream consumer; whether that consumer fails is an answer of
  the environment.
\<close>
type_synonym entry = "label_set \<times> time \<times> string"
type_synonym entry_handler = "label_set \<Rightarrow> time \<Rightarrow> string \<Rightarrow> entry"

datatype level = LevelDebug | LevelInfo | LevelError

text \<open>The checkpoint store \<open>*positions.Positions\<close>: a byte offset (int64) for a path.\<close>
type_synonym positions = "path \<rightharpoonup> int"

text \<open>Modelled from the spec: the checkpoint store, package positions, lies outside
  tailer.go; its interface is \<open>Get(path) -> offset\<close> (zero if unknown),
  \<open>Put(path, offset)\<close> and \<open>Remove(path)\<close>.\<close>
definition positions_Get :: "positions \<Rightarrow> path \<Rightarrow> int" where
  "positions_Get p f = (case p f of None \<Rightarrow> 0 | Some pos \<Rightarrow> pos)"

definition positions_Put :: "positions \<Rightarrow> path \<Rightarrow> int \<Rightarrow> positions" where
  "positions_Put p f pos = p(f \<mapsto> pos)"

definition positions_Remove :: "positions \<Rightarrow> path \<Rightarrow> positions" where
  "positions_Remove p f = p(f := None)"

text \<open>Modelled from the spec: the constant \<open>filenameLabel\<close> and \<open>api.AddLabelsMiddleware\<close> are
  declared outside tailer.go. The wrapped handler makes every delivered line carry an added
  label; the name of that label is not given and nothing below depends on it.\<close>
definition filenameLabel :: string where
  "filenameLabel = ''__filename__''"

definition AddLabelsMiddleware :: "label_set \<Rightarrow> entry_handler \<Rightarrow> entry_handler" where
  "AddLabelsMiddleware additionalLabels next =
     (\<lambda>labels tm text. next (additionalLabels ++ labels) tm text)"

text \<open>
  The shared state outside the session: the checkpoint store, the package's metrics
  (\<open>filesActive\<close>, \<open>totalBytes\<close>, \<open>readLines\<close>, \<open>readBytes\<close>; Prometheus keeps them as float64,
  the model keeps the integers the session feeds them), the entries that reached the
  downstream handler, the log, and the number of goroutines started by \<open>go tailer.run()\<close>.
\<close>
record world =
  positions :: positions
  filesActive :: int
  totalBytes :: "path \<rightharpoonup> int"
  readLines :: "path \<Rightarrow> int"
  readBytes :: "path \<Rightarrow> int"
  handled :: "entry list"
  logs :: "(level \<times> string) list"
  goroutines :: nat

text \<open>What the file system and the line source answer at construction.\<close>
record env =
  Lstat :: "path \<Rightarrow> error + file_info"
  Readlink :: "path \<Rightarrow> error + path"
  tail_open :: "path \<Rightarrow> tail_config \<Rightarrow> error option"

text \<open>\<open>tail.TailFile\<close>: an error of the environment's choosing, or a handle on the file.\<close>
definition TailFile :: "env \<Rightarrow> path \<Rightarrow> tail_config \<Rightarrow> error + tail" where
  "TailFile e filename cfg =
     (case tail_open e filename cfg of
        Some err \<Rightarrow> Inl err
      | None \<Rightarrow> Inr \<lparr>Filename = filename, Config = cfg\<rparr>)"

datatype chan = Open | Closed

text \<open>
  The struct \<open>tailer\<close>. The logger and the store it points to are in the \<open>world\<close>; the
  channels \<open>quit\<close> and \<open>done\<close> carry no value and are only ever closed.
\<close>
record tailer =
  handler :: entry_handler
  path :: path
  filename :: path
  tail :: tail
  quit_chan :: chan
  done_chan :: chan

subsection \<open>Construction, checkpointing, cleanup\<close>

definition newTailer :: "env \<Rightarrow> entry_handler \<Rightarrow> path \<Rightarrow> world \<Rightarrow> (error + tailer) \<times> world" where
  "newTailer e h p w =
     (case Lstat e p of
        Inl err \<Rightarrow> (Inl err, w)
      | Inr fi \<Rightarrow>
         (case (if Mode fi AND ModeSymlink = ModeSymlink
                then (case Readlink e p of
                        Inl err \<Rightarrow> Inl err
                      | Inr target \<Rightarrow> Inr (target, True))
                else Inr (p, False)) of
            Inl err \<Rightarrow> (Inl err, w)
          | Inr (fname, reOpen) \<Rightarrow>
             (case TailFile e fname
                     \<lparr>Follow = True, ReOpen = reOpen,
                      Location = \<lparr>Offset = positions_Get (positions w) fname, Whence = 0\<rparr>\<rparr> of
                Inl err \<Rightarrow> (Inl err, w)
              | Inr hdl \<Rightarrow>
                 (Inr \<lparr>handler = AddLabelsMiddleware [filenameLabel \<mapsto> p] h,
                       path = p, filename = fname, tail = hdl,
                       quit_chan = Open, done_chan = Open\<rparr>,
                  w\<lparr>goroutines := goroutines w + 1,
                    filesActive := filesActive w + 1\<rparr>))))"

text \<open>\<open>markPosition\<close>; the first argument is what \<open>t.tail.Tell()\<close> answers at this call.\<close>
definition markPosition :: "error + int \<Rightarrow> tailer \<Rightarrow> world \<Rightarrow> error option \<times> world" where
  "markPosition tell t w =
     (case tell of
        Inl err \<Rightarrow> (Some err, w)
      | Inr pos \<Rightarrow>
         (None, w\<lparr>logs := logs w @ [(LevelDebug, ''current_position'')],
                  positions := positions_Put (positions w) (filename t) pos\<rparr>))"

definition cleanup :: "tailer \<Rightarrow> world \<Rightarrow> world" where
  "cleanup t w = w\<lparr>positions := positions_Remove (positions w) (filename t)\<rparr>"

subsection \<open>The event loop\<close>

text \<open>The case \<open><-positionWait.C\<close> of the select; \<open>stat\<close> is what \<open>os.Stat\<close> answers now.\<close>
definition run_tick :: "(path \<Rightarrow> error + file_info) \<Rightarrow> error + int \<Rightarrow> tailer \<Rightarrow> world \<Rightarrow> world" where
  "run_tick stat tell t w =
     (case stat (filename t) of
        Inl err \<Rightarrow>
          w\<lparr>logs := logs w @
             [(LevelError, ''failed to stat log file being tailed, cannot report size or mark position'')]\<rparr>
      | Inr fi \<Rightarrow>
          (let w1 = w\<lparr>totalBytes := (totalBytes w)(path t \<mapsto> Size fi)\<rparr>;
               r = markPosition tell t w1
           in case fst r of
                Some err \<Rightarrow> (snd r)\<lparr>logs := logs (snd r) @ [(LevelError, ''error getting tail position'')]\<rparr>
              | None \<Rightarrow> snd r))"

text \<open>The case \<open>line, ok := <-t.tail.Lines\<close> with \<open>ok\<close> true; \<open>res\<close> is what the downstream
  handler answers.\<close>
definition run_line :: "line \<Rightarrow> error option \<Rightarrow> tailer \<Rightarrow> world \<Rightarrow> world" where
  "run_line ln res t w =
     (let w1 = (case Err ln of
                  Some err \<Rightarrow> w\<lparr>logs := logs w @ [(LevelError, ''error reading line'')]\<rparr>
                | None \<Rightarrow> w);
          w2 = w1\<lparr>readLines := (readLines w1)(path t := readLines w1 (path t) + 1)\<rparr>;
          w3 = w2\<lparr>readBytes := (readBytes w2)(path t := readBytes w2 (path t) + (int (length (Text ln)) + 1))\<rparr>;
          w4 = w3\<lparr>handled := handled w3 @ [handler t Map.empty (Time ln) (Text ln)]\<rparr>
      in case res of
           Some err \<Rightarrow> w4\<lparr>logs := logs w4 @ [(LevelError, ''error handling line'')]\<rparr>
         | None \<Rightarrow> w4)"

subsection \<open>The session as two threads\<close>

text \<open>
  The goroutine of \<open>run\<close> and a call of \<open>stop\<close> run side by side on the same session.
  The model interleaves them: a schedule is a list of actions, each one a ready case of
  the loop's select or the next statement of \<open>stop\<close>, together with what the environment
  answers there. The two calls of \<open>markPosition\<close>, \<open>Tell\<close> and then \<open>Put\<close>, are actions of
  their own in both threads, since the other thread can run between them: \<open>TickTell\<close> and
  \<open>TickPut\<close> in the loop, \<open>StopTell\<close> and \<open>StopPut\<close> in \<open>stop\<close>. Between the two the thread
  holds the offset it was told (\<open>Marking\<close>, \<open>AtPut\<close>). \<open>Tick\<close> is the tick that nothing
  interrupts, \<open>TickTell\<close> followed at once by \<open>TickPut\<close>. The other cases of the select
  write only what the loop alone writes, and the other statements of \<open>stop\<close> are single
  operations; each is one action.
\<close>

datatype run_pc = Spawned | Looping | Marking int | Exited

datatype ticker = NoTicker | Ticking | Stopped

datatype stop_pc =
    AtMark | AtPut int | AtTailStop | AtCloseQuit | AtWaitDone | AtGauge | AtReturn
  | Returned "error option"

record system =
  tlr :: tailer
  wld :: world
  run_pc :: run_pc
  positionWait :: ticker
  stop_pc :: stop_pc
  stop_err :: "error option"
  tail_stopped :: bool

text \<open>The system right after a successful \<open>newTailer\<close>: the goroutine is started and has
  not run yet, \<open>stop\<close> has not been called.\<close>
definition spawn :: "tailer \<Rightarrow> world \<Rightarrow> system" where
  "spawn t w = \<lparr>tlr = t, wld = w, run_pc = Spawned, positionWait = NoTicker,
                stop_pc = AtMark, stop_err = None, tail_stopped = False\<rparr>"

datatype action =
    RunBegin
  | Tick "path \<Rightarrow> error + file_info" "error + int"
  | TickTell "path \<Rightarrow> error + file_info" "error + int"
  | TickPut int
  | Line line "error option"
  | LinesClosed
  | Quit
  | StopTell "error + int"
  | StopPut int
  | StopTail "error option"
  | StopCloseQuit
  | StopWaitDone
  | StopGauge
  | StopReturn

text \<open>\<open>NotReady\<close>: the thread is not at that point, or it waits there (a receive on an open
  channel). \<open>Panic\<close>: Go panics when a closed channel is closed again.\<close>
datatype fault = NotReady | Panic

text \<open>The deferred function of \<open>run\<close>: \<open>positionWait.Stop()\<close>, then \<open>close(t.done)\<close>.\<close>
definition run_return :: "system \<Rightarrow> fault + system" where
  "run_return s =
     (if done_chan (tlr s) = Closed then Inl Panic
      else Inr (s\<lparr>positionWait := Stopped,
                  tlr := (tlr s)\<lparr>done_chan := Closed\<rparr>,
                  run_pc := Exited\<rparr>))"

fun step :: "action \<Rightarrow> system \<Rightarrow> fault + system" where
  "step RunBegin s =
     (if run_pc s = Spawned
      then Inr (s\<lparr>wld := (wld s)\<lparr>logs := logs (wld s) @ [(LevelInfo, ''start tailing file'')]\<rparr>,
                  positionWait := Ticking,
                  run_pc := Looping\<rparr>)
      else Inl NotReady)"
| "step (Tick stat tell) s =
     (if run_pc s = Looping
      then Inr (s\<lparr>wld := run_tick stat tell (tlr s) (wld s)\<rparr>)
      else Inl NotReady)"
| "step (TickTell stat tell) s =
     (if run_pc s = Looping
      then (case stat (filename (tlr s)) of
              Inl err \<Rightarrow> Inr (s\<lparr>wld := run_tick stat tell (tlr s) (wld s)\<rparr>)
            | Inr fi \<Rightarrow>
               (case tell of
                  Inl err \<Rightarrow> Inr (s\<lparr>wld := run_tick stat tell (tlr s) (wld s)\<rparr>)
                | Inr pos \<Rightarrow>
                    Inr (s\<lparr>wld := (wld s)\<lparr>totalBytes := (totalBytes (wld s))(path (tlr s) \<mapsto> Size fi)\<rparr>,
                           run_pc := Marking pos\<rparr>)))
      else Inl NotReady)"
| "step (TickPut pos) s =
     (if run_pc s = Marking pos
      then Inr (s\<lparr>wld := snd (markPosition (Inr pos) (tlr s) (wld s)), run_pc := Looping\<rparr>)
      else Inl NotReady)"
| "step (Line ln res) s =
     (if run_pc s = Looping
      then Inr (s\<lparr>wld := run_line ln res (tlr s) (wld s)\<rparr>)
      else Inl NotReady)"
| "step LinesClosed s =
     (if run_pc s = Looping then run_return s else Inl NotReady)"
| "step Quit s =
     (if run_pc s = Looping \<and> quit_chan (tlr s) = Closed then run_return s else Inl NotReady)"
| "step (StopTell tell) s =
     (if stop_pc s = AtMark
      then (case tell of
              Inl err \<Rightarrow>
                (let r = markPosition (Inl err) (tlr s) (wld s);
                     w1 = (case fst r of
                             Some e \<Rightarrow> (snd r)\<lparr>logs := logs (snd r) @ [(LevelError, ''error getting tail position'')]\<rparr>
                           | None \<Rightarrow> snd r)
                 in Inr (s\<lparr>wld := w1, stop_err := fst r, stop_pc := AtTailStop\<rparr>))
            | Inr pos \<Rightarrow> Inr (s\<lparr>stop_pc := AtPut pos\<rparr>))
      else Inl NotReady)"
| "step (StopPut pos) s =
     (if stop_pc s = AtPut pos
      then (let r = markPosition (Inr pos) (tlr s) (wld s)
            in Inr (s\<lparr>wld := snd r, stop_err := fst r, stop_pc := AtTailStop\<rparr>))
      else Inl NotReady)"
| "step (StopTail res) s =
     (if stop_pc s = AtTailStop
      then Inr (s\<lparr>tail_stopped := True, stop_err := res, stop_pc := AtCloseQuit\<rparr>)
      else Inl NotReady)"
| "step StopCloseQuit s =
     (if stop_pc s = AtCloseQuit
      then (if quit_chan (tlr s) = Closed then Inl Panic
            else Inr (s\<lparr>tlr := (tlr s)\<lparr>quit_chan := Closed\<rparr>, stop_pc := AtWaitDone\<rparr>))
      else Inl NotReady)"
| "step StopWaitDone s =
     (if stop_pc s = AtWaitDone \<and> done_chan (tlr s) = Closed
      then Inr (s\<lparr>stop_pc := AtGauge\<rparr>)
      else Inl NotReady)"
| "step StopGauge s =
     (if stop_pc s = AtGauge
      then Inr (s\<lparr>wld := (wld s)\<lparr>filesActive := filesActive (wld s) - 1\<rparr>, stop_pc := AtReturn\<rparr>)
      else Inl NotReady)"
| "step StopReturn s =
     (if stop_pc s = AtReturn
      then Inr (s\<lparr>wld := (wld s)\<lparr>logs := logs (wld s) @ [(LevelInfo, ''stopped tailing file'')]\<rparr>,
                  stop_pc := Returned (stop_err s)\<rparr>)
      else Inl NotReady)"

fun exec :: "action list \<Rightarrow> system \<Rightarrow> fault + system" where
  "exec [] s = Inr s"
| "exec (a # as) s = (case step a s of Inl f \<Rightarrow> Inl f | Inr s' \<Rightarrow> exec as s')"


text \<open>The actions on which the loop returns.\<close>
fun is_exit_action :: "action \<Rightarrow> bool" where
  "is_exit_action LinesClosed = True"
| "is_exit_action Quit = True"
| "is_exit_action a = False"

text \<open>The lines a schedule hands to the loop, in order.\<close>
fun delivered_lines :: "action list \<Rightarrow> line list" where
  "delivered_lines [] = []"
| "delivered_lines (Line ln res # as) = ln # delivered_lines as"
| "delivered_lines (a # as) = delivered_lines as"

text \<open>The cases of the select that do not return, each run in one piece: a tick, a line.\<close>
fun is_work_action :: "action \<Rightarrow> bool" where
  "is_work_action (Tick stat tell) = True"
| "is_work_action (Line ln res) = True"
| "is_work_action a = False"

text \<open>The offsets \<open>Tell\<close> reports, in a schedule, to the checkpoints of the file \<open>f\<close> that go
  on to \<open>Put\<close>: those of the ticks whose stat succeeds and the one of \<open>stop\<close>.\<close>
fun told_offsets :: "path \<Rightarrow> action list \<Rightarrow> int list" where
  "told_offsets f [] = []"
| "told_offsets f (Tick stat (Inr pos) # as) =
     (case stat f of Inl err \<Rightarrow> told_offsets f as | Inr fi \<Rightarrow> pos # told_offsets f as)"
| "told_offsets f (TickTell stat (Inr pos) # as) =
     (case stat f of Inl err \<Rightarrow> told_offsets f as | Inr fi \<Rightarrow> pos # told_offsets f as)"
| "told_offsets f (StopTell (Inr pos) # as) = pos # told_offsets f as"
| "told_offsets f (a # as) = told_offsets f as"

text \<open>The offsets a schedule has \<open>Put\<close> write for the file \<open>f\<close>, in the order of the writes.\<close>
fun put_offsets :: "path \<Rightarrow> action list \<Rightarrow> int list" where
  "put_offsets f [] = []"
| "put_offsets f (Tick stat (Inr pos) # as) =
     (case stat f of Inl err \<Rightarrow> put_offsets f as | Inr fi \<Rightarrow> pos # put_offsets f as)"
| "put_offsets f (TickPut pos # as) = pos # put_offsets f as"
| "put_offsets f (StopPut pos # as) = pos # put_offsets f as"
| "put_offsets f (a # as) = put_offsets f as"

text \<open>Construction followed by a schedule; \<open>None\<close> when construction fails or the schedule
  cannot be run.\<close>
definition session_run :: "env \<Rightarrow> entry_handler \<Rightarrow> path \<Rightarrow> world \<Rightarrow> action list \<Rightarrow> system option" where
  "session_run e h p w acts =
     (case newTailer e h p w of
        (Inl err, w') \<Rightarrow> None
      | (Inr t, w') \<Rightarrow> (case exec acts (spawn t w') of Inl f \<Rightarrow> None | Inr s \<Rightarrow> Some s))"

text \<open>
  The bytes of the file the session has forwarded: the offset it started from, and for
  every entry handed to the handler its text and the newline.
\<close>
definition forwarded_offset :: "system \<Rightarrow> int" where
  "forwarded_offset s =
     Offset (Location (Config (tail (tlr s))))
       + sum_list (map (\<lambda>en. int (length (snd (snd en))) + 1) (handled (wld s)))"

text \<open>The stored offset of the file is not ahead of what has been forwarded.\<close>
definition checkpoint_not_ahead :: "system \<Rightarrow> bool" where
  "checkpoint_not_ahead s \<longleftrightarrow>
     positions_Get (positions (wld s)) (filename (tlr s)) \<le> forwarded_offset s"

subsection \<open>Concrete environments\<close>

text \<open>A downstream handler that receives the entry as it is.\<close>
definition deliver :: entry_handler where
  "deliver labels tm text = (labels, tm, text)"

definition world0 :: world where
  "world0 = \<lparr>positions = Map.empty, filesActive = 0, totalBytes = Map.empty,
             readLines = (\<lambda>f. 0), readBytes = (\<lambda>f. 0), handled = [], logs = [],
             goroutines = 0\<rparr>"

text \<open>\<open>/var/log/app.log\<close> is a regular file of mode 0644 and five bytes, \<open>a\<close>, newline, \<open>bb\<close>,
  newline; \<open>/var/log/current\<close> is a symbolic link to \<open>/var/log/app-2024.log\<close>; nothing else
  exists.\<close>
definition stat_app :: "path \<Rightarrow> error + file_info" where
  "stat_app f =
     (if f = ''/var/log/app.log'' \<or> f = ''/var/log/app-2024.log''
      then Inr \<lparr>Mode = 0x1A4, Size = 5\<rparr>
      else Inl (GoError ''no such file or directory''))"

definition env_app :: env where
  "env_app =
     \<lparr>Lstat = (\<lambda>f. if f = ''/var/log/current'' then Inr \<lparr>Mode = 0x80001FF, Size = 21\<rparr>
                    else stat_app f),
      Readlink = (\<lambda>f. if f = ''/var/log/current'' then Inr ''/var/log/app-2024.log''
                       else Inl (GoError ''invalid argument'')),
      tail_open = (\<lambda>f cfg. None)\<rparr>"

text \<open>The same file system where the link cannot be read, and where the line source
  refuses to open.\<close>
definition env_unreadable_link :: env where
  "env_unreadable_link = env_app\<lparr>Readlink := (\<lambda>f. Inl (GoError ''permission denied''))\<rparr>"

definition env_no_tail :: env where
  "env_no_tail = env_app\<lparr>tail_open := (\<lambda>f cfg. Some (GoError ''too many open files''))\<rparr>"

text \<open>A schedule in which \<open>stop\<close> is called while the loop is at work: the final checkpoint
  fails, a tick comes in between, the line source reports an error when stopped.\<close>
definition stop_schedule :: "action list" where
  "stop_schedule =
     [RunBegin,
      Line \<lparr>Text = ''a'', Time = 7, Err = None\<rparr> None,
      StopTell (Inl (GoError ''file closed'')),
      Tick stat_app (Inr 2),
      StopTail (Some (GoError ''tail stopped with error'')),
      StopCloseQuit,
      Quit,
      StopWaitDone,
      StopGauge,
      StopReturn]"

text \<open>A schedule in which every tick and every line goes wrong, and the line source
  closes its channel in the end.\<close>
definition failing_schedule :: "action list" where
  "failing_schedule =
     [Tick (\<lambda>f. Inl (GoError ''no such file or directory'')) (Inr 2),
      Tick stat_app (Inl (GoError ''file closed'')),
      Line \<lparr>Text = ''a'', Time = 7, Err = Some (GoError ''read error'')\<rparr>
           (Some (GoError ''handler failed''))]"

text \<open>A tick that comes before the first line has been handed over: the line source has
  read \<open>a\<close> and its newline, so \<open>Tell\<close> answers 2.\<close>
definition early_tick_schedule :: "action list" where
  "early_tick_schedule = [RunBegin, Tick stat_app (Inr 2)]"

text \<open>The session on \<open>/var/log/app.log\<close> in a fresh world, as constructed and once its loop
  has begun.\<close>
definition app_tailer :: tailer where
  "app_tailer =
     \<lparr>handler = AddLabelsMiddleware [filenameLabel \<mapsto> ''/var/log/app.log''] deliver,
      path = ''/var/log/app.log'', filename = ''/var/log/app.log'',
      tail = \<lparr>Filename = ''/var/log/app.log'',
              Config = \<lparr>Follow = True, ReOpen = False,
                        Location = \<lparr>Offset = 0, Whence = 0\<rparr>\<rparr>\<rparr>,
      quit_chan = Open, done_chan = Open\<rparr>"

definition app_world :: world where
  "app_world = world0\<lparr>goroutines := 1, filesActive := 1\<rparr>"

definition app_looping :: system where
  "app_looping =
     \<lparr>tlr = app_tailer,
      wld = app_world\<lparr>logs := [(LevelInfo, ''start tailing file'')]\<rparr>,
      run_pc = Looping, positionWait = Ticking,
      stop_pc = AtMark, stop_err = None, tail_stopped = False\<rparr>"

text \<open>The session on the link \<open>/var/log/current\<close>.\<close>
definition link_tailer :: tailer where
  "link_tailer =
     \<lparr>handler = AddLabelsMiddleware [filenameLabel \<mapsto> ''/var/log/current''] deliver,
      path = ''/var/log/current'', filename = ''/var/log/app-2024.log'',
      tail = \<lparr>Filename = ''/var/log/app-2024.log'',
              Config = \<lparr>Follow = True, ReOpen = True,
                        Location = \<lparr>Offset = 0, Whence = 0\<rparr>\<rparr>\<rparr>,
      quit_chan = Open, done_chan = Open\<rparr>"

text \<open>A schedule in which \<open>stop\<close> is called in the middle of a tick. The loop has forwarded
  \<open>a\<close> and is told offset 2; the line source reads \<open>bb\<close>; \<open>stop\<close> is told offset 5 and
  writes it; the tick then writes its 2; the loop forwards \<open>bb\<close>; the line source reports an
  error when stopped.\<close>
definition race_schedule :: "action list" where
  "race_schedule =
     [RunBegin,
      Line \<lparr>Text = ''a'', Time = 7, Err = None\<rparr> None,
      TickTell stat_app (Inr 2),
      StopTell (Inr 5),
      StopPut 5,
      TickPut 2,
      Line \<lparr>Text = ''bb'', Time = 8, Err = None\<rparr> None,
      StopTail (Some (GoError ''tail stopped with error'')),
      StopCloseQuit,
      Quit,
      StopWaitDone,
      StopGauge,
      StopReturn]"

text \<open>The link \<open>/var/log/current\<close> pointed at \<open>/var/log/app-2025.log\<close> instead, and a store
  that holds offset 5 for the old target and offset 42 for the new one.\<close>
definition env_repointed :: env where
  "env_repointed =
     env_app\<lparr>Readlink := (\<lambda>f. if f = ''/var/log/current'' then Inr ''/var/log/app-2025.log''
                                else Inl (GoError ''invalid argument''))\<rparr>"

definition stored_world :: world where
  "stored_world =
     app_world\<lparr>positions := [''/var/log/app-2024.log'' \<mapsto> 5, ''/var/log/app-2025.log'' \<mapsto> 42]\<rparr>"

definition repointed_tailer :: tailer where
  "repointed_tailer =
     \<lparr>handler = AddLabelsMiddleware [filenameLabel \<mapsto> ''/var/log/current''] deliver,
      path = ''/var/log/current'', filename = ''/var/log/app-2025.log'',
      tail = \<lparr>Filename = ''/var/log/app-2025.log'',
              Config = \<lparr>Follow = True, ReOpen = True,
                        Location = \<lparr>Offset = 42, Whence = 0\<rparr>\<rparr>\<rparr>,
      quit_chan = Open, done_chan = Open\<rparr>"

section \<open>Auxiliary facts\<close>

subsection \<open>The concrete environments\<close>

lemma link_mode_is_symlink: "(0x80001FF :: 32 word) AND ModeSymlink = ModeSymlink"
  by (simp add: ModeSymlink_def)

lemma file_mode_not_symlink: "(0x1A4 :: 32 word) AND ModeSymlink \<noteq> ModeSymlink"
  by (simp add: ModeSymlink_def)

lemma newTailer_app:
  "newTailer env_app deliver ''/var/log/app.log'' world0 = (Inr app_tailer, app_world)"
  by (simp add: newTailer_def env_app_def stat_app_def file_mode_not_symlink TailFile_def
      positions_Get_def world0_def app_tailer_def app_world_def)

lemma newTailer_link:
  "newTailer env_app deliver ''/var/log/current'' world0 = (Inr link_tailer, app_world)"
  by (simp add: newTailer_def env_app_def link_mode_is_symlink TailFile_def
      positions_Get_def world0_def link_tailer_def app_world_def)

lemma app_looping_reached:
  "session_run env_app deliver ''/var/log/app.log'' world0 [RunBegin] = Some app_looping"
  unfolding session_run_def newTailer_app
  by (simp add: spawn_def app_looping_def app_world_def world0_def)

subsection \<open>What a step leaves alone\<close>

lemma filesActive_run_tick [simp]: "filesActive (run_tick stat tell t w) = filesActive w"
  by (simp add: run_tick_def markPosition_def Let_def split: sum.splits)

lemma filesActive_run_line [simp]: "filesActive (run_line ln res t w) = filesActive w"
  by (simp add: run_line_def Let_def split: option.splits)

lemma handled_run_tick [simp]: "handled (run_tick stat tell t w) = handled w"
  by (simp add: run_tick_def markPosition_def Let_def split: sum.splits)

lemma handled_run_line [simp]:
  "handled (run_line ln res t w) = handled w @ [handler t Map.empty (Time ln) (Text ln)]"
  by (simp add: run_line_def Let_def split: option.splits)

lemma positions_run_line [simp]: "positions (run_line ln res t w) = positions w"
  by (simp add: run_line_def Let_def split: option.splits)

lemma step_tlr_fixed:
  assumes "step a s = Inr s'"
  shows "handler (tlr s') = handler (tlr s) \<and> path (tlr s') = path (tlr s)
         \<and> filename (tlr s') = filename (tlr s) \<and> tail (tlr s') = tail (tlr s)"
  using assms
  by (cases a) (auto simp: run_return_def markPosition_def Let_def split: if_splits sum.splits)



lemma step_exited_stable:
  assumes "run_pc s = Exited \<and> positionWait s = Stopped \<and> done_chan (tlr s) = Closed"
    and "step a s = Inr s'"
  shows "run_pc s' = Exited \<and> positionWait s' = Stopped \<and> done_chan (tlr s') = Closed"
  using assms
  by (cases a) (auto simp: run_return_def markPosition_def Let_def split: if_splits sum.splits)

lemma exec_Cons_Inr:
  assumes "exec (a # as) s = Inr s'"
  obtains s1 where "step a s = Inr s1" and "exec as s1 = Inr s'"
  using assms by (auto split: sum.splits)

lemma exec_append:
  "exec (xs @ ys) s = (case exec xs s of Inl f \<Rightarrow> Inl f | Inr s1 \<Rightarrow> exec ys s1)"
  by (induction xs arbitrary: s) (auto split: sum.splits)

lemma exec_exited_stable:
  assumes "exec acts s = Inr s'"
    and "run_pc s = Exited \<and> positionWait s = Stopped \<and> done_chan (tlr s) = Closed"
  shows "run_pc s' = Exited \<and> positionWait s' = Stopped \<and> done_chan (tlr s') = Closed"
  using assms
proof (induction acts arbitrary: s)
  case Nil
  then show ?case by simp
next
  case (Cons a as)
  from Cons.prems(1) obtain s1 where 1: "step a s = Inr s1" and 2: "exec as s1 = Inr s'"
    by (rule exec_Cons_Inr)
  from step_exited_stable [OF Cons.prems(2) 1] Cons.IH [OF 2] show ?case by blast
qed

subsection \<open>The entries a schedule forwards\<close>

lemma step_handled:
  assumes "step a s = Inr s'"
  shows "handled (wld s')
           = handled (wld s)
               @ map (\<lambda>ln. handler (tlr s) Map.empty (Time ln) (Text ln)) (delivered_lines [a])"
  using assms
  by (cases a) (auto simp: run_return_def markPosition_def Let_def split: if_splits sum.splits)

lemma delivered_lines_Cons: "delivered_lines (a # as) = delivered_lines [a] @ delivered_lines as"
  by (cases a) simp_all

lemma exec_handled:
  assumes "exec acts s = Inr s'"
  shows "filename (tlr s') = filename (tlr s)
         \<and> handled (wld s')
           = handled (wld s)
               @ map (\<lambda>ln. handler (tlr s) Map.empty (Time ln) (Text ln)) (delivered_lines acts)"
  using assms
proof (induction acts arbitrary: s)
  case Nil
  then show ?case by simp
next
  case (Cons a as)
  from Cons.prems obtain s1 where 1: "step a s = Inr s1" and 2: "exec as s1 = Inr s'"
    by (rule exec_Cons_Inr)
  from step_tlr_fixed [OF 1] step_handled [OF 1] Cons.IH [OF 2]
  show ?case
    by (simp add: delivered_lines_Cons [of a as])
qed

subsection \<open>The loop\<close>

lemma exec_work:
  assumes "run_pc s = Looping" and "list_all is_work_action acts"
  shows "\<exists>s'. exec acts s = Inr s' \<and> run_pc s' = Looping"
  using assms
proof (induction acts arbitrary: s)
  case Nil
  then show ?case by simp
next
  case (Cons a as)
  from Cons.prems obtain s1 where 1: "step a s = Inr s1" and 2: "run_pc s1 = Looping"
    by (cases a) auto
  from Cons.prems(2) have "list_all is_work_action as" by simp
  from Cons.IH [OF 2 this] 1 show ?case by simp
qed

lemma step_exit:
  assumes "is_exit_action a" and "step a s = Inr s'"
  shows "run_pc s' = Exited \<and> positionWait s' = Stopped \<and> done_chan (tlr s') = Closed"
  using assms
  by (cases a) (auto simp: run_return_def markPosition_def Let_def split: if_splits sum.splits)

lemma step_no_exit:
  assumes "\<not> is_exit_action a" and "step a s = Inr s'"
    and "run_pc s = Looping \<or> (\<exists>pos. run_pc s = Marking pos)"
  shows "run_pc s' = Looping \<or> (\<exists>pos. run_pc s' = Marking pos)"
  using assms
  by (cases a) (auto simp: markPosition_def Let_def split: if_splits sum.splits)

lemma put_ready_when_marking:
  assumes "run_pc s = Marking pos"
  shows "\<exists>s'. step (TickPut pos) s = Inr s' \<and> run_pc s' = Looping"
  using assms by simp

lemma exec_exit:
  assumes "exec acts s = Inr s'" and "run_pc s = Looping \<or> (\<exists>pos. run_pc s = Marking pos)"
  shows "if list_ex is_exit_action acts
         then run_pc s' = Exited \<and> positionWait s' = Stopped \<and> done_chan (tlr s') = Closed
         else run_pc s' = Looping \<or> (\<exists>pos. run_pc s' = Marking pos)"
  using assms
proof (induction acts arbitrary: s)
  case Nil
  then show ?case by simp
next
  case (Cons a as)
  from Cons.prems(1) obtain s1 where 1: "step a s = Inr s1" and 2: "exec as s1 = Inr s'"
    by (rule exec_Cons_Inr)
  show ?case
  proof (cases "is_exit_action a")
    case True
    from exec_exited_stable [OF 2 step_exit [OF True 1]] True show ?thesis by simp
  next
    case False
    from Cons.IH [OF 2 step_no_exit [OF False 1 Cons.prems(2)]] False show ?thesis by simp
  qed
qed

text \<open>The tick that nothing interrupts is the tick in two halves.\<close>
lemma tick_is_tell_then_put:
  assumes "run_pc s = Looping"
  shows "step (Tick stat tell) s
           = exec (TickTell stat tell
                     # (case stat (filename (tlr s)) of
                          Inl err \<Rightarrow> []
                        | Inr fi \<Rightarrow> (case tell of Inl err \<Rightarrow> [] | Inr pos \<Rightarrow> [TickPut pos]))) s"
  using assms
  by (auto simp: run_tick_def markPosition_def Let_def split: sum.splits)

lemma step_done_closed:
  assumes "step a s = Inr s'" and "done_chan (tlr s) = Open" and "done_chan (tlr s') = Closed"
  shows "is_exit_action a"
  using assms
  by (cases a) (auto simp: run_return_def markPosition_def Let_def split: if_splits sum.splits)

lemma exec_done_closed:
  assumes "exec acts s = Inr s'" and "done_chan (tlr s) = Open" and "done_chan (tlr s') = Closed"
  shows "list_ex is_exit_action acts"
  using assms
proof (induction acts arbitrary: s)
  case Nil
  then show ?case by simp
next
  case (Cons a as)
  from Cons.prems(1) obtain s1 where 1: "step a s = Inr s1" and 2: "exec as s1 = Inr s'"
    by (rule exec_Cons_Inr)
  show ?case
  proof (cases "done_chan (tlr s1)")
    case Open
    from Cons.IH [OF 2 Open Cons.prems(3)] show ?thesis by simp
  next
    case Closed
    from step_done_closed [OF 1 Cons.prems(2) Closed] show ?thesis by simp
  qed
qed


subsection \<open>The statements of stop\<close>









subsection \<open>The offsets a schedule checkpoints\<close>

lemma step_positions:
  assumes "step a s = Inr s'"
  shows "positions (wld s')
           = (case put_offsets (filename (tlr s)) [a] of
                [] \<Rightarrow> positions (wld s)
              | pos # ps \<Rightarrow> (positions (wld s))(filename (tlr s) \<mapsto> pos))"
  using assms
proof (cases a)
  case (Tick stat tell)
  with assms show ?thesis
    by (cases tell)
       (auto simp: run_tick_def markPosition_def positions_Put_def Let_def
             split: if_splits sum.splits)
next
  case (TickTell stat tell)
  with assms show ?thesis
    by (cases tell)
       (auto simp: run_tick_def markPosition_def positions_Put_def Let_def
             split: if_splits sum.splits)
next
  case (TickPut pos)
  with assms show ?thesis
    by (auto simp: markPosition_def positions_Put_def split: if_splits)
next
  case (StopTell tell)
  with assms show ?thesis
    by (cases tell) (auto simp: markPosition_def Let_def split: if_splits)
next
  case (StopPut pos)
  with assms show ?thesis
    by (auto simp: markPosition_def positions_Put_def Let_def split: if_splits)
qed (auto simp: run_return_def split: if_splits)

lemma put_offsets_Cons: "put_offsets f (a # as) = put_offsets f [a] @ put_offsets f as"
proof (cases a)
  case (Tick stat tell)
  then show ?thesis by (cases tell) (simp_all split: sum.splits)
qed simp_all

lemma put_offsets_single: "put_offsets f [a] = [] \<or> (\<exists>pos. put_offsets f [a] = [pos])"
proof (cases a)
  case (Tick stat tell)
  then show ?thesis by (cases tell) (simp_all split: sum.splits)
qed simp_all

lemma told_offsets_Cons: "told_offsets f (a # as) = told_offsets f [a] @ told_offsets f as"
proof (cases a)
  case (Tick stat tell)
  then show ?thesis by (cases tell) (simp_all split: sum.splits)
next
  case (TickTell stat tell)
  then show ?thesis by (cases tell) (simp_all split: sum.splits)
next
  case (StopTell tell)
  then show ?thesis by (cases tell) simp_all
qed simp_all

text \<open>An offset is written only after it has been told: what a step writes, and what a
  thread holds after it, was told by that step or held before it.\<close>
lemma step_put_was_told:
  assumes "step a s = Inr s'"
  shows "set (put_offsets (filename (tlr s)) [a])
           \<union> {pos. run_pc s' = Marking pos \<or> stop_pc s' = AtPut pos}
         \<subseteq> set (told_offsets (filename (tlr s)) [a])
           \<union> {pos. run_pc s = Marking pos \<or> stop_pc s = AtPut pos}"
  using assms
proof (cases a)
  case (Tick stat tell)
  with assms show ?thesis
    by (cases tell) (auto split: if_splits sum.splits)
next
  case (TickTell stat tell)
  with assms show ?thesis
    by (cases tell) (auto split: if_splits sum.splits)
next
  case (StopTell tell)
  with assms show ?thesis
    by (cases tell) (auto simp: Let_def split: if_splits)
qed (auto simp: run_return_def Let_def split: if_splits)

lemma exec_put_was_told:
  assumes "exec acts s = Inr s'"
  shows "set (put_offsets (filename (tlr s)) acts)
         \<subseteq> set (told_offsets (filename (tlr s)) acts)
           \<union> {pos. run_pc s = Marking pos \<or> stop_pc s = AtPut pos}"
  using assms
proof (induction acts arbitrary: s)
  case Nil
  then show ?case by simp
next
  case (Cons a as)
  from Cons.prems obtain s1 where 1: "step a s = Inr s1" and 2: "exec as s1 = Inr s'"
    by (rule exec_Cons_Inr)
  from step_tlr_fixed [OF 1] have f: "filename (tlr s1) = filename (tlr s)" by simp
  from step_put_was_told [OF 1] Cons.IH [OF 2] f
  show ?case
    unfolding put_offsets_Cons [of _ a as] told_offsets_Cons [of _ a as]
    by auto
qed

section \<open>Construction\<close>

text \<open>
  C1. For every valid path (the stat succeeds, a link can be read, the line source opens),
  construction opens the line source against the resolved path in follow mode, seeking
  (whence 0) to the byte offset the checkpoint store returns for the resolved path: the
  stored offset, and zero when no offset was recorded.
\<close>
theorem newTailer_opens_at_stored_offset:
  assumes "Lstat e p = Inr fi"
    and "Mode fi AND ModeSymlink = ModeSymlink \<Longrightarrow> Readlink e p = Inr target"
    and "resolved = (if Mode fi AND ModeSymlink = ModeSymlink then target else p)"
    and "\<forall>cfg. tail_open e resolved cfg = None"
  shows "\<exists>t w'. newTailer e h p w = (Inr t, w')
           \<and> filename t = resolved
           \<and> Filename (tail t) = resolved
           \<and> Follow (Config (tail t))
           \<and> Whence (Location (Config (tail t))) = 0
           \<and> Offset (Location (Config (tail t))) = positions_Get (positions w) resolved
           \<and> Offset (Location (Config (tail t)))
               = (case positions w resolved of None \<Rightarrow> 0 | Some pos \<Rightarrow> pos)"
  using assms by (auto simp: newTailer_def TailFile_def positions_Get_def)

text \<open>The link with offset 42 stored for its target, and the plain file with nothing
  stored.\<close>
theorem newTailer_opens_at_stored_offset_witness:
  "(\<exists>t w'. newTailer env_app deliver ''/var/log/current''
              (world0\<lparr>positions := [''/var/log/app-2024.log'' \<mapsto> 42]\<rparr>) = (Inr t, w')
      \<and> Filename (tail t) = ''/var/log/app-2024.log''
      \<and> Follow (Config (tail t))
      \<and> Offset (Location (Config (tail t))) = 42)
   \<and> (\<exists>t w'. newTailer env_app deliver ''/var/log/app.log'' world0 = (Inr t, w')
      \<and> Filename (tail t) = ''/var/log/app.log''
      \<and> Follow (Config (tail t))
      \<and> Offset (Location (Config (tail t))) = 0)"
proof
  let ?w = "world0\<lparr>positions := [''/var/log/app-2024.log'' \<mapsto> 42]\<rparr>"
  have 1: "Lstat env_app ''/var/log/current'' = Inr \<lparr>Mode = 0x80001FF, Size = 21\<rparr>"
    by (simp add: env_app_def)
  have 2: "Readlink env_app ''/var/log/current'' = Inr ''/var/log/app-2024.log''"
    by (simp add: env_app_def)
  have 3: "''/var/log/app-2024.log''
             = (if Mode \<lparr>Mode = 0x80001FF, Size = 21\<rparr> AND ModeSymlink = ModeSymlink
                then ''/var/log/app-2024.log'' else ''/var/log/current'')"
    by (simp add: link_mode_is_symlink)
  have 4: "\<forall>cfg. tail_open env_app ''/var/log/app-2024.log'' cfg = None"
    by (simp add: env_app_def)
  from newTailer_opens_at_stored_offset [OF 1 2 3 4, of deliver ?w]
  obtain t w' where "newTailer env_app deliver ''/var/log/current'' ?w = (Inr t, w')"
    and "Filename (tail t) = ''/var/log/app-2024.log''"
    and "Follow (Config (tail t))"
    and "Offset (Location (Config (tail t)))
           = (case positions ?w ''/var/log/app-2024.log'' of None \<Rightarrow> 0 | Some pos \<Rightarrow> pos)"
    by blast
  then show "\<exists>t w'. newTailer env_app deliver ''/var/log/current'' ?w = (Inr t, w')
      \<and> Filename (tail t) = ''/var/log/app-2024.log''
      \<and> Follow (Config (tail t))
      \<and> Offset (Location (Config (tail t))) = 42"
    by simp
next
  have 1: "Lstat env_app ''/var/log/app.log'' = Inr \<lparr>Mode = 0x1A4, Size = 5\<rparr>"
    by (simp add: env_app_def stat_app_def)
  have 2: "Mode \<lparr>Mode = 0x1A4, Size = 5\<rparr> AND ModeSymlink = ModeSymlink
             \<Longrightarrow> Readlink env_app ''/var/log/app.log'' = Inr ''/var/log/app.log''"
    by (simp add: file_mode_not_symlink)
  have 3: "''/var/log/app.log''
             = (if Mode \<lparr>Mode = 0x1A4, Size = 5\<rparr> AND ModeSymlink = ModeSymlink
                then ''/var/log/app.log'' else ''/var/log/app.log'')"
    by simp
  have 4: "\<forall>cfg. tail_open env_app ''/var/log/app.log'' cfg = None"
    by (simp add: env_app_def)
  from newTailer_opens_at_stored_offset [OF 1 2 3 4, of deliver world0]
  obtain t w' where "newTailer env_app deliver ''/var/log/app.log'' world0 = (Inr t, w')"
    and "Filename (tail t) = ''/var/log/app.log''"
    and "Follow (Config (tail t))"
    and "Offset (Location (Config (tail t)))
           = (case positions world0 ''/var/log/app.log'' of None \<Rightarrow> 0 | Some pos \<Rightarrow> pos)"
    by blast
  then show "\<exists>t w'. newTailer env_app deliver ''/var/log/app.log'' world0 = (Inr t, w')
      \<and> Filename (tail t) = ''/var/log/app.log''
      \<and> Follow (Config (tail t))
      \<and> Offset (Location (Config (tail t))) = 0"
    by (simp add: world0_def)
qed

text \<open>
  C5. When the requested path is a symbolic link, construction resolves it once (the
  session reads the link's target from then on), sets the re-open flag of the line source,
  and every line the session forwards carries the requested path as its label, whatever
  the target is.
\<close>
theorem symlink_reopens_and_labels_by_requested_path:
  assumes "Lstat e p = Inr fi" and "Mode fi AND ModeSymlink = ModeSymlink"
    and "newTailer e h p w = (Inr t, w')"
    and "exec acts (spawn t w') = Inr s"
  shows "Readlink e p = Inr (filename t)
         \<and> Filename (tail t) = filename t
         \<and> ReOpen (Config (tail t))
         \<and> path t = p
         \<and> filename (tlr s) = filename t
         \<and> handled (wld s)
             = handled w @ map (\<lambda>ln. h [filenameLabel \<mapsto> p] (Time ln) (Text ln))
                               (delivered_lines acts)"
proof -
  from assms(1-3) have t: "Readlink e p = Inr (filename t)" "Filename (tail t) = filename t"
      "ReOpen (Config (tail t))" "path t = p"
      "handler t = AddLabelsMiddleware [filenameLabel \<mapsto> p] h" "handled w' = handled w"
    by (auto simp: newTailer_def TailFile_def split: sum.splits option.splits)
  from exec_handled [OF assms(4)] t show ?thesis
    by (simp add: spawn_def AddLabelsMiddleware_def)
qed

text \<open>The session on the link \<open>/var/log/current\<close>: it reads \<open>/var/log/app-2024.log\<close> and
  labels the line \<open>a\<close> with \<open>/var/log/current\<close>.\<close>
theorem symlink_reopens_and_labels_by_requested_path_witness:
  "\<exists>t w s. newTailer env_app deliver ''/var/log/current'' world0 = (Inr t, w)
      \<and> exec stop_schedule (spawn t w) = Inr s
      \<and> filename t = ''/var/log/app-2024.log''
      \<and> ReOpen (Config (tail t))
      \<and> handled (wld s) = [([filenameLabel \<mapsto> ''/var/log/current''], 7, ''a'')]"
proof -
  have 1: "Lstat env_app ''/var/log/current'' = Inr \<lparr>Mode = 0x80001FF, Size = 21\<rparr>"
    by (simp add: env_app_def)
  have 2: "Mode \<lparr>Mode = 0x80001FF, Size = 21\<rparr> AND ModeSymlink = ModeSymlink"
    by (simp add: link_mode_is_symlink)
  have "\<exists>s. exec stop_schedule (spawn link_tailer app_world) = Inr s"
    by (simp add: stop_schedule_def spawn_def run_return_def Let_def markPosition_def
        link_tailer_def)
  then obtain s where e: "exec stop_schedule (spawn link_tailer app_world) = Inr s"
    by blast
  from symlink_reopens_and_labels_by_requested_path [OF 1 2 newTailer_link e]
  have "handled (wld s) = [([filenameLabel \<mapsto> ''/var/log/current''], 7, ''a'')]"
    and "ReOpen (Config (tail link_tailer))"
    and "filename link_tailer = ''/var/log/app-2024.log''"
    by (simp_all add: world0_def stop_schedule_def deliver_def env_app_def)
  with newTailer_link e show ?thesis
    by blast
qed

text \<open>
  C8. If the initial stat, the resolution of the link, or the opening of the line source
  fails, construction returns that error and no session, and leaves the world as it was:
  no goroutine is started, the gauge of active files is not incremented.
\<close>
theorem newTailer_failure_leaves_nothing:
  assumes "Lstat e p = Inl err
           \<or> (\<exists>fi. Lstat e p = Inr fi \<and> Mode fi AND ModeSymlink = ModeSymlink
                    \<and> Readlink e p = Inl err)
           \<or> (\<exists>fi fname. Lstat e p = Inr fi
                    \<and> (if Mode fi AND ModeSymlink = ModeSymlink
                        then Readlink e p = Inr fname else fname = p)
                    \<and> tail_open e fname
                         \<lparr>Follow = True, ReOpen = (Mode fi AND ModeSymlink = ModeSymlink),
                          Location = \<lparr>Offset = positions_Get (positions w) fname, Whence = 0\<rparr>\<rparr>
                        = Some err)"
  shows "newTailer e h p w = (Inl err, w)"
  using assms by (auto simp: newTailer_def TailFile_def split: if_splits)

text \<open>A missing file, a link that cannot be read, a line source that does not open.\<close>
theorem newTailer_failure_leaves_nothing_witness:
  "newTailer env_app deliver ''/var/log/missing'' world0
     = (Inl (GoError ''no such file or directory''), world0)
   \<and> newTailer env_unreadable_link deliver ''/var/log/current'' world0
     = (Inl (GoError ''permission denied''), world0)
   \<and> newTailer env_no_tail deliver ''/var/log/app.log'' world0
     = (Inl (GoError ''too many open files''), world0)"
proof (intro conjI)
  have "Lstat env_app ''/var/log/missing'' = Inl (GoError ''no such file or directory'')"
    by (simp add: env_app_def stat_app_def)
  then show "newTailer env_app deliver ''/var/log/missing'' world0
     = (Inl (GoError ''no such file or directory''), world0)"
    by (intro newTailer_failure_leaves_nothing disjI1)
next
  have "\<exists>fi. Lstat env_unreadable_link ''/var/log/current'' = Inr fi
          \<and> Mode fi AND ModeSymlink = ModeSymlink
          \<and> Readlink env_unreadable_link ''/var/log/current'' = Inl (GoError ''permission denied'')"
    by (simp add: env_unreadable_link_def env_app_def link_mode_is_symlink)
  then show "newTailer env_unreadable_link deliver ''/var/log/current'' world0
     = (Inl (GoError ''permission denied''), world0)"
    by (intro newTailer_failure_leaves_nothing disjI2 disjI1)
next
  have "Lstat env_no_tail ''/var/log/app.log'' = Inr \<lparr>Mode = 0x1A4, Size = 5\<rparr>
          \<and> (if Mode \<lparr>Mode = 0x1A4, Size = 5\<rparr> AND ModeSymlink = ModeSymlink
              then Readlink env_no_tail ''/var/log/app.log'' = Inr ''/var/log/app.log''
              else ''/var/log/app.log'' = ''/var/log/app.log'')
          \<and> tail_open env_no_tail ''/var/log/app.log''
               \<lparr>Follow = True,
                ReOpen = (Mode \<lparr>Mode = 0x1A4, Size = 5\<rparr> AND ModeSymlink = ModeSymlink),
                Location = \<lparr>Offset = positions_Get (positions world0) ''/var/log/app.log'',
                            Whence = 0\<rparr>\<rparr>
              = Some (GoError ''too many open files'')"
    by (simp add: env_no_tail_def env_app_def stat_app_def file_mode_not_symlink)
  then have "\<exists>fi fname. Lstat env_no_tail ''/var/log/app.log'' = Inr fi
          \<and> (if Mode fi AND ModeSymlink = ModeSymlink
              then Readlink env_no_tail ''/var/log/app.log'' = Inr fname
              else fname = ''/var/log/app.log'')
          \<and> tail_open env_no_tail fname
               \<lparr>Follow = True, ReOpen = (Mode fi AND ModeSymlink = ModeSymlink),
                Location = \<lparr>Offset = positions_Get (positions world0) fname, Whence = 0\<rparr>\<rparr>
              = Some (GoError ''too many open files'')"
    by blast
  then show "newTailer env_no_tail deliver ''/var/log/app.log'' world0
     = (Inl (GoError ''too many open files''), world0)"
    by (intro newTailer_failure_leaves_nothing disjI2)
qed

section \<open>The event loop\<close>

text \<open>
  C2. For every line the source delivers to the loop, the counter of lines read for the
  requested path grows by exactly 1, the counter of bytes read by exactly the length of
  the text plus 1, and the text and the timestamp of the line go to the wrapped handler
  with an empty label set; this is so whether or not the line carries a read error and
  whether or not the handler fails, and the loop goes on.
\<close>
theorem run_line_counts_and_forwards:
  assumes "run_pc s = Looping"
  shows "\<exists>s'. step (Line ln res) s = Inr s'
           \<and> readLines (wld s') (path (tlr s)) = readLines (wld s) (path (tlr s)) + 1
           \<and> readBytes (wld s') (path (tlr s))
               = readBytes (wld s) (path (tlr s)) + (int (length (Text ln)) + 1)
           \<and> handled (wld s') = handled (wld s) @ [handler (tlr s) Map.empty (Time ln) (Text ln)]
           \<and> run_pc s' = Looping"
  using assms by (simp add: run_line_def Let_def split: option.splits)

text \<open>The line \<open>bb\<close>, read with an error and refused by the handler, counts one line and
  three bytes and reaches the handler.\<close>
theorem run_line_counts_and_forwards_witness:
  "\<exists>s'. step (Line \<lparr>Text = ''bb'', Time = 8, Err = Some (GoError ''read error'')\<rparr>
                   (Some (GoError ''handler failed''))) app_looping = Inr s'
      \<and> readLines (wld s') ''/var/log/app.log'' = 1
      \<and> readBytes (wld s') ''/var/log/app.log'' = 3
      \<and> handled (wld s') = [([filenameLabel \<mapsto> ''/var/log/app.log''], 8, ''bb'')]"
proof -
  have 1: "run_pc app_looping = Looping"
    by (simp add: app_looping_def)
  from run_line_counts_and_forwards [OF 1,
         of "\<lparr>Text = ''bb'', Time = 8, Err = Some (GoError ''read error'')\<rparr>"
            "Some (GoError ''handler failed'')"]
  show ?thesis
    by (simp add: app_looping_def app_tailer_def app_world_def world0_def
        AddLabelsMiddleware_def deliver_def)
qed

text \<open>
  C9. The loop does not return because a tick's stat fails, the offset cannot be read, a
  line carries a read error or the handler fails: any schedule of ticks and lines, whatever
  the environment answers, runs through and leaves the loop going. The loop has returned
  exactly when the schedule contains the closing of the line channel or the quit case;
  otherwise it is at its select, or in the middle of a tick that goes back to the select
  with its \<open>Put\<close>. The quit case is not ready while the quit channel is open; and whenever
  the loop has returned the ticker is stopped and the done channel is closed.
\<close>
theorem loop_returns_only_on_close_or_quit:
  assumes "run_pc s = Looping" and "done_chan (tlr s) = Open"
  shows "(\<forall>acts. list_all is_work_action acts
            \<longrightarrow> (\<exists>s'. exec acts s = Inr s' \<and> run_pc s' = Looping))
       \<and> (\<forall>acts s'. exec acts s = Inr s'
            \<longrightarrow> (if list_ex is_exit_action acts
                 then run_pc s' = Exited \<and> positionWait s' = Stopped \<and> done_chan (tlr s') = Closed
                 else run_pc s' = Looping
                      \<or> (\<exists>pos s''. run_pc s' = Marking pos
                            \<and> step (TickPut pos) s' = Inr s'' \<and> run_pc s'' = Looping)))
       \<and> (\<exists>s'. step LinesClosed s = Inr s'
             \<and> run_pc s' = Exited \<and> positionWait s' = Stopped \<and> done_chan (tlr s') = Closed)
       \<and> (case quit_chan (tlr s) of
            Open \<Rightarrow> step Quit s = Inl NotReady
          | Closed \<Rightarrow> (\<exists>s'. step Quit s = Inr s'
               \<and> run_pc s' = Exited \<and> positionWait s' = Stopped \<and> done_chan (tlr s') = Closed))"
proof -
  have a: "\<exists>s'. step LinesClosed s = Inr s'
             \<and> run_pc s' = Exited \<and> positionWait s' = Stopped \<and> done_chan (tlr s') = Closed"
    using assms by (simp add: run_return_def)
  have b: "case quit_chan (tlr s) of
            Open \<Rightarrow> step Quit s = Inl NotReady
          | Closed \<Rightarrow> (\<exists>s'. step Quit s = Inr s'
               \<and> run_pc s' = Exited \<and> positionWait s' = Stopped \<and> done_chan (tlr s') = Closed)"
    using assms by (simp add: run_return_def split: chan.splits)
  have c: "if list_ex is_exit_action acts
           then run_pc s' = Exited \<and> positionWait s' = Stopped \<and> done_chan (tlr s') = Closed
           else run_pc s' = Looping
                \<or> (\<exists>pos s''. run_pc s' = Marking pos
                      \<and> step (TickPut pos) s' = Inr s'' \<and> run_pc s'' = Looping)"
    if e: "exec acts s = Inr s'" for acts s'
  proof (cases "list_ex is_exit_action acts")
    case True
    with exec_exit [OF e] assms(1) show ?thesis by simp
  next
    case False
    with exec_exit [OF e] assms(1)
    have "run_pc s' = Looping \<or> (\<exists>pos. run_pc s' = Marking pos)"
      by simp
    with put_ready_when_marking [of s'] False show ?thesis
      by (auto simp del: step.simps)
  qed
  from a b c exec_work [OF assms(1)] show ?thesis
    by blast
qed

text \<open>After a tick whose stat fails, a tick whose offset cannot be read and a line with a
  read error that the handler refuses, the loop is still going; the closing of the line
  channel then ends it, with the ticker stopped and done closed; the quit case is not
  ready, nobody having closed quit.\<close>
theorem loop_returns_only_on_close_or_quit_witness:
  "(\<exists>s'. exec failing_schedule app_looping = Inr s' \<and> run_pc s' = Looping)
   \<and> (\<exists>s'. exec (failing_schedule @ [LinesClosed]) app_looping = Inr s'
         \<and> run_pc s' = Exited \<and> positionWait s' = Stopped \<and> done_chan (tlr s') = Closed)
   \<and> step Quit app_looping = Inl NotReady"
proof -
  have 1: "run_pc app_looping = Looping" and 2: "done_chan (tlr app_looping) = Open"
    and 3: "quit_chan (tlr app_looping) = Open"
    by (simp_all add: app_looping_def app_tailer_def)
  note th = loop_returns_only_on_close_or_quit [OF 1 2]
  have w: "list_all is_work_action failing_schedule"
    by (simp add: failing_schedule_def)
  from th w have a: "\<exists>s'. exec failing_schedule app_looping = Inr s' \<and> run_pc s' = Looping"
    by blast
  then obtain s1 where s1: "exec failing_schedule app_looping = Inr s1" and "run_pc s1 = Looping"
    by blast
  then have "done_chan (tlr s1) = Open"
    using exec_done_closed [OF s1 2] w
    by (cases "done_chan (tlr s1)") (simp_all add: failing_schedule_def)
  with \<open>run_pc s1 = Looping\<close> have "\<exists>s'. step LinesClosed s1 = Inr s'"
    by (simp add: run_return_def)
  then obtain s2 where "step LinesClosed s1 = Inr s2"
    by blast
  with s1 have s2: "exec (failing_schedule @ [LinesClosed]) app_looping = Inr s2"
    by (simp add: exec_append)
  have x: "list_ex is_exit_action (failing_schedule @ [LinesClosed])"
    by simp
  from th have "\<forall>acts s'. exec acts app_looping = Inr s'
            \<longrightarrow> (if list_ex is_exit_action acts
                 then run_pc s' = Exited \<and> positionWait s' = Stopped \<and> done_chan (tlr s') = Closed
                 else run_pc s' = Looping
                      \<or> (\<exists>pos s''. run_pc s' = Marking pos
                            \<and> step (TickPut pos) s' = Inr s'' \<and> run_pc s'' = Looping))"
    by blast
  with s2 x have b: "run_pc s2 = Exited \<and> positionWait s2 = Stopped \<and> done_chan (tlr s2) = Closed"
    by (metis (full_types))
  from th 3 have c: "step Quit app_looping = Inl NotReady"
    by simp
  from a b c s2 show ?thesis
    by blast
qed

text \<open>
  C10. On a tick, when the stat of the resolved path fails, neither the gauge of total
  bytes nor the checkpoint store changes; when the stat succeeds, the gauge of the
  requested path is set to the size of the file, also when the offset cannot be read, in
  which case the checkpoint store does not change.
\<close>
theorem tick_frame:
  assumes "run_pc s = Looping"
  shows "\<exists>s'. step (Tick stat tell) s = Inr s'
           \<and> (case stat (filename (tlr s)) of
                 Inl err \<Rightarrow> totalBytes (wld s') = totalBytes (wld s)
                            \<and> positions (wld s') = positions (wld s)
               | Inr fi \<Rightarrow> totalBytes (wld s') = (totalBytes (wld s))(path (tlr s) \<mapsto> Size fi)
                            \<and> (case tell of
                                  Inl err \<Rightarrow> positions (wld s') = positions (wld s)
                                | Inr pos \<Rightarrow> positions (wld s')
                                               = (positions (wld s))(filename (tlr s) \<mapsto> pos)))"
  using assms
  by (simp add: run_tick_def markPosition_def positions_Put_def Let_def split: sum.splits)

text \<open>A tick whose stat fails, and a tick on the file of five bytes whose offset cannot
  be read.\<close>
theorem tick_frame_witness:
  "(\<exists>s'. step (Tick (\<lambda>f. Inl (GoError ''no such file or directory'')) (Inr 2)) app_looping = Inr s'
        \<and> totalBytes (wld s') = Map.empty \<and> positions (wld s') = Map.empty)
   \<and> (\<exists>s'. step (Tick stat_app (Inl (GoError ''file closed''))) app_looping = Inr s'
        \<and> totalBytes (wld s') = [''/var/log/app.log'' \<mapsto> 5] \<and> positions (wld s') = Map.empty)"
proof -
  have 1: "run_pc app_looping = Looping"
    by (simp add: app_looping_def)
  from tick_frame [OF 1, of "\<lambda>f. Inl (GoError ''no such file or directory'')" "Inr 2"]
       tick_frame [OF 1, of stat_app "Inl (GoError ''file closed'')"]
  show ?thesis
    by (simp add: app_looping_def app_tailer_def app_world_def world0_def stat_app_def)
qed

section \<open>Checkpointing\<close>

text \<open>
  C6. \<open>markPosition\<close> takes the offset the line source reports and writes it to the
  checkpoint store under the resolved path, returning no error; when the source reports
  an error instead, it returns that error and the world, the store included, is as it was.
\<close>
theorem markPosition_atomic:
  "markPosition (Inl err) t w = (Some err, w)
   \<and> fst (markPosition (Inr pos) t w) = None
   \<and> positions (snd (markPosition (Inr pos) t w)) = (positions w)(filename t \<mapsto> pos)"
  by (simp add: markPosition_def positions_Put_def)

text \<open>
  C4, as stated: at every point of a session's lifetime the stored offset of the resolved
  path is not ahead of the lines already forwarded to the handler. It fails. The file
  \<open>/var/log/app.log\<close> holds \<open>a\<close>, newline, \<open>bb\<close>, newline and no offset is stored; the line
  source has read the first line and waits to hand it over, so its \<open>Tell\<close> answers 2; the
  tick comes first. The store then holds 2 while nothing has been forwarded.
\<close>
theorem checkpoint_ahead_of_forwarded_lines:
  "map_option checkpoint_not_ahead
     (session_run env_app deliver ''/var/log/app.log'' world0 early_tick_schedule) = Some False
   \<and> map_option (handled \<circ> wld)
     (session_run env_app deliver ''/var/log/app.log'' world0 early_tick_schedule) = Some []
   \<and> map_option (positions \<circ> wld)
     (session_run env_app deliver ''/var/log/app.log'' world0 early_tick_schedule)
       = Some [''/var/log/app.log'' \<mapsto> 2]"
  unfolding session_run_def newTailer_app early_tick_schedule_def
  by (simp add: spawn_def run_tick_def markPosition_def positions_Put_def positions_Get_def
      world0_def app_world_def app_tailer_def stat_app_def checkpoint_not_ahead_def
      forwarded_offset_def Let_def)

text \<open>
  C4, amended: at every point of a session's lifetime the checkpoint store is what it was
  at the start, except that the entry of the resolved path holds the offset written last
  by a checkpoint of the session, if one has written. Every offset written is one the line
  source reported (\<open>Tell\<close>) to a checkpoint of the session, a tick whose stat succeeded or
  the one of \<open>stop\<close>; it need not be the latest report, since the tick and \<open>stop\<close> can each
  be told its offset before the other writes. The lines forwarded to the handler have no
  part in it.
\<close>
theorem checkpoint_is_last_written_offset:
  assumes "exec acts s = Inr s'" and "run_pc s = Spawned" and "stop_pc s = AtMark"
  shows "positions (wld s')
           = (if put_offsets (filename (tlr s)) acts = [] then positions (wld s)
              else (positions (wld s))
                     (filename (tlr s) \<mapsto> last (put_offsets (filename (tlr s)) acts)))
         \<and> set (put_offsets (filename (tlr s)) acts)
             \<subseteq> set (told_offsets (filename (tlr s)) acts)"
proof -
  have "positions (wld s')
           = (if put_offsets (filename (tlr s)) acts = [] then positions (wld s)
              else (positions (wld s))
                     (filename (tlr s) \<mapsto> last (put_offsets (filename (tlr s)) acts)))"
    using assms(1)
  proof (induction acts arbitrary: s)
    case Nil
    then show ?case by simp
  next
    case (Cons a as)
    from Cons.prems obtain s1 where 1: "step a s = Inr s1" and 2: "exec as s1 = Inr s'"
      by (rule exec_Cons_Inr)
    from step_tlr_fixed [OF 1] have f: "filename (tlr s1) = filename (tlr s)" by simp
    from put_offsets_single [of "filename (tlr s)" a] step_positions [OF 1] Cons.IH [OF 2] f
    show ?case
      by (auto simp: put_offsets_Cons [of _ a as])
  qed
  moreover from exec_put_was_told [OF assms(1)] assms(2,3)
  have "set (put_offsets (filename (tlr s)) acts)
          \<subseteq> set (told_offsets (filename (tlr s)) acts)"
    by simp
  ultimately show ?thesis
    by blast
qed

text \<open>In the schedule where \<open>stop\<close> comes in the middle of a tick, the line source reports
  2 and then 5; 5 is written first and 2 last, and 2 is what the store holds in the end.\<close>
theorem checkpoint_is_last_written_offset_witness:
  "\<exists>s'. exec race_schedule (spawn app_tailer app_world) = Inr s'
      \<and> told_offsets ''/var/log/app.log'' race_schedule = [2, 5]
      \<and> put_offsets ''/var/log/app.log'' race_schedule = [5, 2]
      \<and> positions (wld s') = [''/var/log/app.log'' \<mapsto> 2]"
proof -
  have "\<exists>s'. exec race_schedule (spawn app_tailer app_world) = Inr s'"
    by (simp add: race_schedule_def spawn_def run_return_def Let_def markPosition_def
        app_tailer_def stat_app_def)
  then obtain s' where e: "exec race_schedule (spawn app_tailer app_world) = Inr s'"
    by blast
  have 1: "run_pc (spawn app_tailer app_world) = Spawned"
    and 2: "stop_pc (spawn app_tailer app_world) = AtMark"
    by (simp_all add: spawn_def)
  have t: "told_offsets ''/var/log/app.log'' race_schedule = [2, 5]"
    and p: "put_offsets ''/var/log/app.log'' race_schedule = [5, 2]"
    by (simp_all add: race_schedule_def stat_app_def)
  from checkpoint_is_last_written_offset [OF e 1 2] p
  have "positions (wld s') = [''/var/log/app.log'' \<mapsto> 2]"
    by (simp add: spawn_def app_tailer_def app_world_def world0_def)
  with e t p show ?thesis
    by blast
qed

text \<open>
  C7, as stated: after \<open>cleanup\<close> a fresh session constructed on the same path reads a zero
  stored offset and starts at offset zero. It fails when the path is a link that has been
  pointed elsewhere. The session on \<open>/var/log/current\<close> reads \<open>/var/log/app-2024.log\<close>; the
  store holds 5 for that file and 42 for \<open>/var/log/app-2025.log\<close>. \<open>cleanup\<close> removes the
  entry of \<open>/var/log/app-2024.log\<close>. The link now points to \<open>/var/log/app-2025.log\<close>, and
  the fresh session on \<open>/var/log/current\<close> opens at offset 42.
\<close>
theorem cleanup_then_repointed_link_starts_at_stored_offset:
  "newTailer env_app deliver ''/var/log/current'' world0 = (Inr link_tailer, app_world)
   \<and> positions (cleanup link_tailer stored_world) (filename link_tailer) = None
   \<and> fst (newTailer env_repointed deliver ''/var/log/current'' (cleanup link_tailer stored_world))
       = Inr repointed_tailer
   \<and> path repointed_tailer = path link_tailer
   \<and> Offset (Location (Config (tail repointed_tailer))) = 42"
proof -
  have "fst (newTailer env_repointed deliver ''/var/log/current''
               (cleanup link_tailer stored_world)) = Inr repointed_tailer"
    by (simp add: newTailer_def env_repointed_def env_app_def link_mode_is_symlink TailFile_def
        cleanup_def positions_Remove_def positions_Get_def stored_world_def link_tailer_def
        repointed_tailer_def)
  moreover have "positions (cleanup link_tailer stored_world) (filename link_tailer) = None"
    by (simp add: cleanup_def positions_Remove_def)
  moreover have "path repointed_tailer = path link_tailer"
    and "Offset (Location (Config (tail repointed_tailer))) = 42"
    by (simp_all add: repointed_tailer_def link_tailer_def)
  ultimately show ?thesis
    using newTailer_link by blast
qed

text \<open>
  C7, amended: \<open>cleanup\<close> removes from the checkpoint store the entry of the file the session
  read, the resolved path, and no other; a fresh session constructed afterwards on the
  same path, when the path still resolves to that file, finds no stored offset, reads zero
  and opens the line source at offset zero. The file system may have changed otherwise
  between the two constructions.
\<close>
theorem cleanup_then_fresh_session_on_same_file_starts_at_zero:
  assumes "newTailer e h p w0 = (Inr t, w1)"
    and "newTailer e' h' p (cleanup t w) = (Inr t', w')"
    and "filename t' = filename t"
  shows "positions (cleanup t w) = (positions w)(filename t := None)
         \<and> positions_Get (positions (cleanup t w)) (filename t') = 0
         \<and> Filename (tail t') = filename t
         \<and> Offset (Location (Config (tail t'))) = 0"
proof -
  have c: "positions (cleanup t w) = (positions w)(filename t := None)"
    by (simp add: cleanup_def positions_Remove_def)
  then have g: "positions_Get (positions (cleanup t w)) (filename t) = 0"
    by (simp add: positions_Get_def)
  from assms(2)
  have "Offset (Location (Config (tail t'))) = positions_Get (positions (cleanup t w)) (filename t')"
    and "Filename (tail t') = filename t'"
    by (auto simp: newTailer_def TailFile_def split: sum.splits if_splits option.splits)
  with c g assms(3) show ?thesis
    by simp
qed

text \<open>The link still points to \<open>/var/log/app-2024.log\<close>, for which 5 was stored: after
  \<open>cleanup\<close> the fresh session on \<open>/var/log/current\<close> starts at zero.\<close>
theorem cleanup_then_fresh_session_on_same_file_starts_at_zero_witness:
  "\<exists>t' w'. newTailer env_app deliver ''/var/log/current'' (cleanup link_tailer stored_world)
            = (Inr t', w')
      \<and> Filename (tail t') = ''/var/log/app-2024.log''
      \<and> Offset (Location (Config (tail t'))) = 0
      \<and> positions_Get (positions stored_world) ''/var/log/app-2024.log'' = 5"
proof -
  have "\<exists>t' w'. newTailer env_app deliver ''/var/log/current'' (cleanup link_tailer stored_world)
                  = (Inr t', w') \<and> filename t' = filename link_tailer"
    by (simp add: newTailer_def env_app_def link_mode_is_symlink TailFile_def link_tailer_def)
  then obtain t' w' where
    n: "newTailer env_app deliver ''/var/log/current'' (cleanup link_tailer stored_world)
          = (Inr t', w')"
    and f: "filename t' = filename link_tailer"
    by blast
  from cleanup_then_fresh_session_on_same_file_starts_at_zero [OF newTailer_link n f]
  have "Offset (Location (Config (tail t'))) = 0"
    and "Filename (tail t') = ''/var/log/app-2024.log''"
    by (simp_all add: link_tailer_def)
  moreover have "positions_Get (positions stored_world) ''/var/log/app-2024.log'' = 5"
    by (simp add: positions_Get_def stored_world_def)
  ultimately show ?thesis
    using n by blast
qed

section \<open>Stopping\<close>



end
